theory Spec2Isabelle
  imports Main "HOL-Library.Word"
begin

unbundle bit_operations_syntax

section \<open>libmemtrack: data model\<close>

text \<open>
  A shallow embedding of \<^verbatim>\<open>memtrack.cpp\<close>. Machine integers are words:
  \<^verbatim>\<open>uint32_t\<close> and \<^verbatim>\<open>int32_t\<close> are \<open>32 word\<close>, \<^verbatim>\<open>uint64_t\<close>,
  \<^verbatim>\<open>int64_t\<close> and \<^verbatim>\<open>ssize_t\<close> (LP64) are \<open>64 word\<close>. A word is a bit pattern;
  \<open>uint\<close> reads it unsigned and \<open>sint\<close> reads it in two's complement. Loop indices
  are natural numbers: none of them exceeds the size of the vector it runs over.
\<close>

type_synonym u32 = "32 word"
type_synonym u64 = "64 word"
type_synonym pid_t = "32 word"
type_synonym ssize_t = "64 word"

text \<open>
  The integral conversions the program performs implicitly. Converting a signed value to
  the unsigned type of the same width yields the value modulo \<open>2 ^ w\<close>; converting an
  unsigned value to the signed type yields the value with the same residue.
\<close>

definition u64_of_i64 :: "64 word \<Rightarrow> u64" where
  "u64_of_i64 x = word_of_int (sint x)"

definition u32_of_i32 :: "32 word \<Rightarrow> u32" where
  "u32_of_i32 x = word_of_int (sint x)"

definition ssize_t_of_u64 :: "u64 \<Rightarrow> ssize_t" where
  "ssize_t_of_u64 x = word_of_int (uint x)"

text \<open>
  \<^verbatim>\<open>V1_0::MemtrackType\<close>. The enumeration is declared in the HAL header, which is not
  part of the sources; the five memory types are the ones the static assertions and the
  category queries name. The sentinel \<^verbatim>\<open>NUM_TYPES\<close> is only ever used as a count.
\<close>

datatype MemtrackType = OTHER | GL | GRAPHICS | MULTIMEDIA | CAMERA

datatype MemtrackFlag =
  SMAPS_ACCOUNTED | SMAPS_UNACCOUNTED | SHARED | SHARED_PSS | PRIVATE
  | SYSTEM | DEDICATED | NONSECURE | SECURE

text \<open>
  Modelled from the spec: the numeric values of the \<^verbatim>\<open>MemtrackType\<close> enumerators
  (their declaration is missing from the sources). The spec gives the enumeration order
  OTHER, GL, GRAPHICS, MULTIMEDIA, CAMERA followed by a sentinel count that sizes the
  per-type storage, so the values are 0 to 4 and the count is 5.
\<close>

fun MemtrackType_value :: "MemtrackType \<Rightarrow> u32" where
  "MemtrackType_value OTHER = 0"
| "MemtrackType_value GL = 1"
| "MemtrackType_value GRAPHICS = 2"
| "MemtrackType_value MULTIMEDIA = 3"
| "MemtrackType_value CAMERA = 4"

definition NUM_TYPES :: nat where
  "NUM_TYPES = 5"

text \<open>\<^verbatim>\<open>(MemtrackType)i\<close> for a loop index below \<^verbatim>\<open>NUM_TYPES\<close>.\<close>

definition MemtrackType_enum :: "MemtrackType list" where
  "MemtrackType_enum = [OTHER, GL, GRAPHICS, MULTIMEDIA, CAMERA]"

definition MemtrackType_of_index :: "nat \<Rightarrow> MemtrackType" where
  "MemtrackType_of_index i = MemtrackType_enum ! i"

text \<open>\<^verbatim>\<open>static_cast<int>(type)\<close> used as an array index.\<close>

definition type_index :: "MemtrackType \<Rightarrow> nat" where
  "type_index t = unat (MemtrackType_value t)"

text \<open>\<^verbatim>\<open>V1_0::MemtrackRecord\<close>: \<^verbatim>\<open>uint64_t sizeInBytes; uint32_t flags\<close>.\<close>

record MemtrackRecord =
  sizeInBytes :: u64
  flags :: u32

text \<open>\<^verbatim>\<open>struct memtrack_proc_type\<close> and \<^verbatim>\<open>struct memtrack_proc\<close>. The array
  \<^verbatim>\<open>types[NUM_TYPES]\<close> is a list.\<close>

record memtrack_proc_type =
  type :: MemtrackType
  records :: "MemtrackRecord list"

record memtrack_proc =
  pid :: pid_t
  types :: "memtrack_proc_type list"

text \<open>\<^verbatim>\<open>new memtrack_proc()\<close> value-initialises the object: the pid and every type
  field are zero, every record vector is empty.\<close>

definition memtrack_proc_new :: memtrack_proc where
  "memtrack_proc_new =
     \<lparr>pid = 0, types = replicate NUM_TYPES \<lparr>type = OTHER, records = []\<rparr>\<rparr>"

section \<open>Aggregation\<close>

text \<open>
  The inner loop of \<^verbatim>\<open>memtrack_proc_sum\<close>, over the index \<^verbatim>\<open>j\<close> into one record
  vector; \<open>acc\<close> is the running \<^verbatim>\<open>sum\<close>. \<^verbatim>\<open>sum += records[j].sizeInBytes\<close> adds a
  \<^verbatim>\<open>uint64_t\<close> to an \<^verbatim>\<open>ssize_t\<close>: the sum is converted to \<^verbatim>\<open>uint64_t\<close>, the
  addition is done modulo \<open>2 ^ 64\<close>, and the result is converted back.
\<close>

function sum_records :: "MemtrackRecord list \<Rightarrow> u32 \<Rightarrow> nat \<Rightarrow> ssize_t \<Rightarrow> ssize_t" where
  "sum_records recs fl j acc =
     (if j < length recs then
        sum_records recs fl (j + 1)
          (if (flags (recs ! j) AND fl) = fl
           then ssize_t_of_u64 (u64_of_i64 acc + sizeInBytes (recs ! j)) else acc)
      else acc)"
  by pat_completeness auto
termination
  by (relation "measure (\<lambda>(recs, fl, j, acc). length recs - j)") auto

declare sum_records.simps [simp del]

text \<open>The outer loop, over the index \<^verbatim>\<open>i\<close> into the vector of types.\<close>

function sum_types ::
  "memtrack_proc \<Rightarrow> MemtrackType list \<Rightarrow> u32 \<Rightarrow> nat \<Rightarrow> ssize_t \<Rightarrow> ssize_t" where
  "sum_types p tys fl i acc =
     (if i < length tys then
        sum_types p tys fl (i + 1)
          (sum_records (records (types p ! type_index (tys ! i))) fl 0 acc)
      else acc)"
  by pat_completeness auto
termination
  by (relation "measure (\<lambda>(p, tys, fl, i, acc). length tys - i)") auto

declare sum_types.simps [simp del]

definition memtrack_proc_sum :: "memtrack_proc \<Rightarrow> MemtrackType list \<Rightarrow> u32 \<Rightarrow> ssize_t" where
  "memtrack_proc_sum p tys fl = sum_types p tys fl 0 0"

text \<open>
  The six public queries. They dereference the snapshot pointer without a check, so they
  are modelled on a snapshot that exists. The value of \<^verbatim>\<open>MemtrackFlag::SMAPS_UNACCOUNTED\<close> is declared
  in the HAL header; the queries take the flag encoding \<open>fv\<close> of the legacy interface as
  a parameter.
\<close>

definition memtrack_proc_graphics_total :: "memtrack_proc \<Rightarrow> ssize_t" where
  "memtrack_proc_graphics_total p = memtrack_proc_sum p [GRAPHICS] 0"

definition memtrack_proc_graphics_pss :: "(MemtrackFlag \<Rightarrow> u32) \<Rightarrow> memtrack_proc \<Rightarrow> ssize_t" where
  "memtrack_proc_graphics_pss fv p = memtrack_proc_sum p [GRAPHICS] (fv SMAPS_UNACCOUNTED)"

definition memtrack_proc_gl_total :: "memtrack_proc \<Rightarrow> ssize_t" where
  "memtrack_proc_gl_total p = memtrack_proc_sum p [GL] 0"

definition memtrack_proc_gl_pss :: "(MemtrackFlag \<Rightarrow> u32) \<Rightarrow> memtrack_proc \<Rightarrow> ssize_t" where
  "memtrack_proc_gl_pss fv p = memtrack_proc_sum p [GL] (fv SMAPS_UNACCOUNTED)"

definition memtrack_proc_other_total :: "memtrack_proc \<Rightarrow> ssize_t" where
  "memtrack_proc_other_total p = memtrack_proc_sum p [MULTIMEDIA, CAMERA, OTHER] 0"

definition memtrack_proc_other_pss :: "(MemtrackFlag \<Rightarrow> u32) \<Rightarrow> memtrack_proc \<Rightarrow> ssize_t" where
  "memtrack_proc_other_pss fv p =
     memtrack_proc_sum p [MULTIMEDIA, CAMERA, OTHER] (fv SMAPS_UNACCOUNTED)"

section \<open>The two providers\<close>

text \<open>
  The memory-accounting service is outside the program. A provider is a function from the
  calls issued so far and the arguments of the present call to its reply, so its answers
  may change from one call to the next. The calls issued are recorded in the world state.
\<close>

text \<open>\<^verbatim>\<open>V_aidl::MemtrackRecord\<close>: \<^verbatim>\<open>int64_t sizeInBytes; int32_t flags\<close>.\<close>

record aidl_MemtrackRecord =
  aidl_sizeInBytes :: "64 word"
  aidl_flags :: "32 word"

text \<open>\<^verbatim>\<open>V1_0::MemtrackStatus\<close>; the source names \<^verbatim>\<open>SUCCESS\<close> only, the other two
  enumerators are those of the HAL header.\<close>

datatype MemtrackStatus = SUCCESS | MEMORY_TRACKING_NOT_SUPPORTED | TYPE_NOT_SUPPORTED

datatype provider_call =
  Aidl_getMemory pid_t u32
  | Hidl_getMemory pid_t MemtrackType

text \<open>
  What a legacy \<^verbatim>\<open>getMemory\<close> does: it may invoke the completion callback with a
  status and a record vector, and it returns a \<^verbatim>\<open>Return<void>\<close> whose \<^verbatim>\<open>isOk()\<close>
  tells whether the transport succeeded.
\<close>

record hidl_reply =
  callback_args :: "(MemtrackStatus \<times> MemtrackRecord list) option"
  ret_isOk :: bool

type_synonym aidl_IMemtrack =
  "provider_call list \<Rightarrow> pid_t \<Rightarrow> u32 \<Rightarrow> bool \<times> aidl_MemtrackRecord list"

type_synonym hidl_IMemtrack =
  "provider_call list \<Rightarrow> pid_t \<Rightarrow> MemtrackType \<Rightarrow> hidl_reply"

text \<open>
  The environment holds what the service managers answer; the function-local statics of
  the two locator functions evaluate these once. The world holds what the program
  changes: the calls issued to a provider, the \<^verbatim>\<open>logged\<close> flag and the log.
\<close>

record env =
  AServiceManager_isDeclared :: bool
  aidl_fromBinder :: "aidl_IMemtrack option"
  hidl_getService :: "hidl_IMemtrack option"

record world =
  calls :: "provider_call list"
  logged :: bool
  logcat :: "string list"

definition get_hidl_instance :: "env \<Rightarrow> world \<Rightarrow> hidl_IMemtrack option \<times> world" where
  "get_hidl_instance e w =
     (let module = hidl_getService e
      in if Option.is_none module \<and> \<not> logged w
         then (module, w\<lparr>logged := True,
                          logcat := logcat w @ [''Couldn't load memtrack module'']\<rparr>)
         else (module, w))"

definition get_aidl_instance :: "env \<Rightarrow> aidl_IMemtrack option" where
  "get_aidl_instance e =
     (if \<not> AServiceManager_isDeclared e then None else aidl_fromBinder e)"

section \<open>Fetching the records of one type\<close>

text \<open>\<^verbatim>\<open>std::vector::resize\<close>: truncate, or extend with value-initialised records.\<close>

definition resize :: "nat \<Rightarrow> MemtrackRecord list \<Rightarrow> MemtrackRecord list" where
  "resize n v = take n v @ replicate (n - length v) \<lparr>sizeInBytes = 0, flags = 0\<rparr>"

text \<open>The two copy loops. The modern records carry signed fields, which the
  assignments convert to the unsigned fields of the stored record.\<close>

function copy_aidl_records ::
  "aidl_MemtrackRecord list \<Rightarrow> nat \<Rightarrow> MemtrackRecord list \<Rightarrow> MemtrackRecord list" where
  "copy_aidl_records raw i v =
     (if i < length raw then
        copy_aidl_records raw (i + 1)
          (v[i := (v ! i)\<lparr>sizeInBytes := u64_of_i64 (aidl_sizeInBytes (raw ! i)),
                          flags := u32_of_i32 (aidl_flags (raw ! i))\<rparr>])
      else v)"
  by pat_completeness auto
termination
  by (relation "measure (\<lambda>(raw, i, v). length raw - i)") auto

declare copy_aidl_records.simps [simp del]

function copy_hidl_records ::
  "MemtrackRecord list \<Rightarrow> nat \<Rightarrow> MemtrackRecord list \<Rightarrow> MemtrackRecord list" where
  "copy_hidl_records raw i v =
     (if i < length raw then
        copy_hidl_records raw (i + 1)
          (v[i := (v ! i)\<lparr>sizeInBytes := sizeInBytes (raw ! i),
                          flags := flags (raw ! i)\<rparr>])
      else v)"
  by pat_completeness auto
termination
  by (relation "measure (\<lambda>(raw, i, v). length raw - i)") auto

declare copy_hidl_records.simps [simp del]

text \<open>The completion callback handed to the legacy provider; it captures \<^verbatim>\<open>t\<close> and
  \<^verbatim>\<open>err\<close> by reference, so it takes them and returns them.\<close>

definition getMemory_callback ::
  "memtrack_proc_type \<Rightarrow> int \<Rightarrow> MemtrackStatus \<Rightarrow> MemtrackRecord list
     \<Rightarrow> int \<times> memtrack_proc_type" where
  "getMemory_callback t err status raw =
     (let (err1, t1) =
            (if status \<noteq> SUCCESS then (- 1, t\<lparr>records := resize 0 (records t)\<rparr>)
             else (err, t));
          t2 = t1\<lparr>records := resize (length raw) (records t1)\<rparr>
      in (err1, t2\<lparr>records := copy_hidl_records raw 0 (records t2)\<rparr>))"

definition memtrack_proc_get_type ::
  "env \<Rightarrow> memtrack_proc_type \<Rightarrow> pid_t \<Rightarrow> MemtrackType \<Rightarrow> world
     \<Rightarrow> int \<times> memtrack_proc_type \<times> world" where
  "memtrack_proc_get_type e t pd ty w =
     (case get_aidl_instance e of
        Some service \<Rightarrow>
          (let (isOk, raw) = service (calls w) pd (MemtrackType_value ty);
               w1 = w\<lparr>calls := calls w @ [Aidl_getMemory pd (MemtrackType_value ty)]\<rparr>
           in if \<not> isOk then (- 1, t, w1)
              else (0, t\<lparr>records :=
                          copy_aidl_records raw 0 (resize (length raw) (records t))\<rparr>, w1))
      | None \<Rightarrow>
          (case get_hidl_instance e w of
             (None, w1) \<Rightarrow> (- 1, t, w1)
           | (Some memtrack, w1) \<Rightarrow>
               (let reply = memtrack (calls w1) pd ty;
                    w2 = w1\<lparr>calls := calls w1 @ [Hidl_getMemory pd ty]\<rparr>;
                    (err, t1) =
                      (case callback_args reply of
                         None \<Rightarrow> (0, t)
                       | Some (status, raw) \<Rightarrow> getMemory_callback t 0 status raw)
                in (if ret_isOk reply then err else - 1, t1, w2))))"

section \<open>Populating a snapshot\<close>

definition memtrack_proc_sanity_check :: "memtrack_proc \<Rightarrow> int" where
  "memtrack_proc_sanity_check p = 0"

text \<open>\<^verbatim>\<open>EINVAL\<close> of \<^verbatim>\<open>errno.h\<close>, a system header.\<close>

definition EINVAL :: int where
  "EINVAL = 22"

text \<open>The loop of \<^verbatim>\<open>memtrack_proc_get\<close> from index \<open>i\<close> on, with the final call of
  the sanity check.\<close>

function memtrack_proc_get_loop ::
  "env \<Rightarrow> pid_t \<Rightarrow> nat \<Rightarrow> memtrack_proc \<Rightarrow> world \<Rightarrow> int \<times> memtrack_proc \<times> world" where
  "memtrack_proc_get_loop e pd i p w =
     (if i < NUM_TYPES then
        (case memtrack_proc_get_type e (types p ! i) pd (MemtrackType_of_index i) w of
           (ret, t1, w1) \<Rightarrow>
             (let p1 = p\<lparr>types := (types p)[i := t1]\<rparr>
              in if ret \<noteq> 0 then (ret, p1, w1)
                 else memtrack_proc_get_loop e pd (i + 1) p1 w1))
      else (memtrack_proc_sanity_check p, p, w))"
  by pat_completeness auto
termination
  by (relation "measure (\<lambda>(e, pd, i, p, w). NUM_TYPES - i)") auto

declare memtrack_proc_get_loop.simps [simp del]

text \<open>The snapshot pointer may be null: \<open>None\<close>.\<close>

definition memtrack_proc_get ::
  "env \<Rightarrow> memtrack_proc option \<Rightarrow> pid_t \<Rightarrow> world
     \<Rightarrow> int \<times> memtrack_proc option \<times> world" where
  "memtrack_proc_get e popt pd w =
     (case popt of
        None \<Rightarrow> (- EINVAL, None, w)
      | Some p \<Rightarrow>
          (case memtrack_proc_get_loop e pd 0 (p\<lparr>pid := pd\<rparr>) w of
             (ret, p1, w1) \<Rightarrow> (ret, Some p1, w1)))"

section \<open>The static assertions\<close>

text \<open>
  The numeric values of the flag and type enumerators of an interface are declared in its
  generated header; an encoding gives them. The fourteen static assertions compare the
  encoding of the legacy interface with the encoding of the modern one; the program
  compiles only if they hold.
\<close>

record encoding =
  flag_value :: "MemtrackFlag \<Rightarrow> u32"
  type_value :: "MemtrackType \<Rightarrow> u32"

definition static_asserts :: "encoding \<Rightarrow> encoding \<Rightarrow> bool" where
  "static_asserts V1_0 V_aidl \<longleftrightarrow>
     flag_value V1_0 SMAPS_ACCOUNTED = flag_value V_aidl SMAPS_ACCOUNTED
     \<and> flag_value V1_0 SMAPS_UNACCOUNTED = flag_value V_aidl SMAPS_UNACCOUNTED
     \<and> flag_value V1_0 SHARED = flag_value V_aidl SHARED
     \<and> flag_value V1_0 SHARED_PSS = flag_value V_aidl SHARED_PSS
     \<and> flag_value V1_0 PRIVATE = flag_value V_aidl PRIVATE
     \<and> flag_value V1_0 SYSTEM = flag_value V_aidl SYSTEM
     \<and> flag_value V1_0 DEDICATED = flag_value V_aidl DEDICATED
     \<and> flag_value V1_0 NONSECURE = flag_value V_aidl NONSECURE
     \<and> flag_value V1_0 SECURE = flag_value V_aidl SECURE
     \<and> type_value V1_0 OTHER = type_value V_aidl OTHER
     \<and> type_value V1_0 GL = type_value V_aidl GL
     \<and> type_value V1_0 GRAPHICS = type_value V_aidl GRAPHICS
     \<and> type_value V1_0 MULTIMEDIA = type_value V_aidl MULTIMEDIA
     \<and> type_value V1_0 CAMERA = type_value V_aidl CAMERA"

text \<open>A mask is the bitwise OR of the values of some flags.\<close>

definition mask_of :: "encoding \<Rightarrow> MemtrackFlag list \<Rightarrow> u32" where
  "mask_of enc fs = fold (\<lambda>f m. m OR flag_value enc f) fs 0"

section \<open>The populate contract, in the words of the specification\<close>

text \<open>Whether a provider was resolved, and the call a fetch then issues to it.\<close>

definition provider_resolved :: "env \<Rightarrow> bool" where
  "provider_resolved e \<longleftrightarrow>
     \<not> (Option.is_none (get_aidl_instance e) \<and> Option.is_none (hidl_getService e))"

definition provider_call_for :: "env \<Rightarrow> pid_t \<Rightarrow> MemtrackType \<Rightarrow> provider_call" where
  "provider_call_for e pd ty =
     (if Option.is_none (get_aidl_instance e) then Hidl_getMemory pd ty
      else Aidl_getMemory pd (MemtrackType_value ty))"

text \<open>
  The snapshot and the world after the types of index below \<open>k\<close> were fetched in
  enumeration order and every one of these fetches succeeded; \<open>None\<close> if one failed.
\<close>

fun fetched_upto ::
  "env \<Rightarrow> pid_t \<Rightarrow> nat \<Rightarrow> memtrack_proc \<Rightarrow> world \<Rightarrow> (memtrack_proc \<times> world) option" where
  "fetched_upto e pd 0 p w = Some (p, w)"
| "fetched_upto e pd (Suc k) p w =
     (case fetched_upto e pd k p w of
        None \<Rightarrow> None
      | Some (p1, w1) \<Rightarrow>
          (case memtrack_proc_get_type e (types p1 ! k) pd (MemtrackType_of_index k) w1 of
             (ret, t1, w2) \<Rightarrow>
               if ret = 0 then Some (p1\<lparr>types := (types p1)[k := t1]\<rparr>, w2) else None))"

section \<open>The aggregation contract, in the words of the specification\<close>

text \<open>The record sequence stored under a type.\<close>

definition stored_records :: "memtrack_proc \<Rightarrow> MemtrackType \<Rightarrow> MemtrackRecord list" where
  "stored_records p t = records (types p ! type_index t)"

text \<open>The records of the given types that possess every bit of the required mask, type
  after type, each in its stored order.\<close>

definition selected_records ::
  "memtrack_proc \<Rightarrow> MemtrackType list \<Rightarrow> u32 \<Rightarrow> MemtrackRecord list" where
  "selected_records p tys m =
     filter (\<lambda>r. (flags r AND m) = m) (concat (map (stored_records p) tys))"

text \<open>\<open>sum(snapshot, types, requiredFlags)\<close> over a set of types.\<close>

definition sum_spec :: "memtrack_proc \<Rightarrow> MemtrackType set \<Rightarrow> u32 \<Rightarrow> ssize_t" where
  "sum_spec p S m =
     (\<Sum>t\<in>S. \<Sum>r\<leftarrow>filter (\<lambda>r. (flags r AND m) = m) (stored_records p t). sizeInBytes r)"

section \<open>Example data\<close>

text \<open>
  A populated snapshot: one flagless record of 10 bytes under OTHER, MULTIMEDIA and CAMERA,
  one record under GL, two under GRAPHICS. Populating never writes the \<^verbatim>\<open>type\<close> field,
  which keeps its initial value.
\<close>

definition example_snapshot :: memtrack_proc where
  "example_snapshot =
     \<lparr>pid = 1,
      types =
        [\<lparr>type = OTHER, records = [\<lparr>sizeInBytes = 10, flags = 0\<rparr>]\<rparr>,
         \<lparr>type = OTHER, records = [\<lparr>sizeInBytes = 7, flags = 4\<rparr>]\<rparr>,
         \<lparr>type = OTHER, records = [\<lparr>sizeInBytes = 100, flags = 2\<rparr>,
                                   \<lparr>sizeInBytes = 50, flags = 20\<rparr>]\<rparr>,
         \<lparr>type = OTHER, records = [\<lparr>sizeInBytes = 10, flags = 0\<rparr>]\<rparr>,
         \<lparr>type = OTHER, records = [\<lparr>sizeInBytes = 10, flags = 0\<rparr>]\<rparr>]\<rparr>"

text \<open>An encoding with one bit for each flag, and a world in which nothing happened
  yet.\<close>

definition example_encoding :: encoding where
  "example_encoding =
     \<lparr>flag_value =
        (\<lambda>f. case f of
           SMAPS_ACCOUNTED \<Rightarrow> 2 | SMAPS_UNACCOUNTED \<Rightarrow> 4 | SHARED \<Rightarrow> 8
         | SHARED_PSS \<Rightarrow> 16 | PRIVATE \<Rightarrow> 32 | SYSTEM \<Rightarrow> 64 | DEDICATED \<Rightarrow> 128
         | NONSECURE \<Rightarrow> 256 | SECURE \<Rightarrow> 512),
      type_value = MemtrackType_value\<rparr>"

definition world0 :: world where
  "world0 = \<lparr>calls = [], logged = False, logcat = []\<rparr>"

definition example_encoding_aidl :: encoding where
  "example_encoding_aidl =
     \<lparr>flag_value =
        (\<lambda>f. push_bit
           (case f of
              SMAPS_ACCOUNTED \<Rightarrow> 1 | SMAPS_UNACCOUNTED \<Rightarrow> 2 | SHARED \<Rightarrow> 3
            | SHARED_PSS \<Rightarrow> 4 | PRIVATE \<Rightarrow> 5 | SYSTEM \<Rightarrow> 6 | DEDICATED \<Rightarrow> 7
            | NONSECURE \<Rightarrow> 8 | SECURE \<Rightarrow> (9 :: nat)) 1),
      type_value =
        (\<lambda>t. case t of OTHER \<Rightarrow> 0 | GL \<Rightarrow> 1 | GRAPHICS \<Rightarrow> 2 | MULTIMEDIA \<Rightarrow> 3
           | CAMERA \<Rightarrow> 4)\<rparr>"

text \<open>A modern provider that answers every call with two records.\<close>

definition aidl_service_ok :: aidl_IMemtrack where
  "aidl_service_ok h pd v =
     (True, [\<lparr>aidl_sizeInBytes = 4096, aidl_flags = 6\<rparr>,
             \<lparr>aidl_sizeInBytes = 50, aidl_flags = 20\<rparr>])"

definition aidl_env_ok :: env where
  "aidl_env_ok =
     \<lparr>AServiceManager_isDeclared = True,
      aidl_fromBinder = Some aidl_service_ok,
      hidl_getService = None\<rparr>"

text \<open>A modern provider whose call fails for the type of value 2, GRAPHICS.\<close>

definition aidl_service_graphics_fails :: aidl_IMemtrack where
  "aidl_service_graphics_fails h pd v =
     (v \<noteq> 2, [\<lparr>aidl_sizeInBytes = 4096, aidl_flags = 6\<rparr>])"

definition aidl_env_graphics_fails :: env where
  "aidl_env_graphics_fails =
     \<lparr>AServiceManager_isDeclared = True,
      aidl_fromBinder = Some aidl_service_graphics_fails,
      hidl_getService = None\<rparr>"

text \<open>A legacy provider that reports success with two records, and one that reports a
  failure status together with a record.\<close>

definition hidl_service_ok :: hidl_IMemtrack where
  "hidl_service_ok h pd ty =
     \<lparr>callback_args = Some (SUCCESS, [\<lparr>sizeInBytes = 100, flags = 2\<rparr>,
                                       \<lparr>sizeInBytes = 50, flags = 20\<rparr>]),
      ret_isOk = True\<rparr>"

definition hidl_env_ok :: env where
  "hidl_env_ok =
     \<lparr>AServiceManager_isDeclared = False,
      aidl_fromBinder = None,
      hidl_getService = Some hidl_service_ok\<rparr>"

definition hidl_service_status_failure :: hidl_IMemtrack where
  "hidl_service_status_failure h pd ty =
     \<lparr>callback_args = Some (TYPE_NOT_SUPPORTED, [\<lparr>sizeInBytes = 4096, flags = 4\<rparr>]),
      ret_isOk = True\<rparr>"

definition hidl_env_status_failure :: env where
  "hidl_env_status_failure =
     \<lparr>AServiceManager_isDeclared = False,
      aidl_fromBinder = None,
      hidl_getService = Some hidl_service_status_failure\<rparr>"

text \<open>No provider at all.\<close>

definition env_no_provider :: env where
  "env_no_provider =
     \<lparr>AServiceManager_isDeclared = False, aidl_fromBinder = None, hidl_getService = None\<rparr>"

section \<open>Properties of the aggregation\<close>

lemma u64_of_i64_id [simp]: "u64_of_i64 x = x"
  by (simp add: u64_of_i64_def)

lemma u32_of_i32_id [simp]: "u32_of_i32 x = x"
  by (simp add: u32_of_i32_def)

lemma ssize_t_of_u64_id [simp]: "ssize_t_of_u64 x = x"
  by (simp add: ssize_t_of_u64_def)

lemma sum_records_drop:
  "sum_records recs fl j acc =
     acc + (\<Sum>r\<leftarrow>filter (\<lambda>r. (flags r AND fl) = fl) (drop j recs). sizeInBytes r)"
proof (induction recs fl j acc rule: sum_records.induct)
  case (1 recs fl j acc)
  show ?case
  proof (cases "j < length recs")
    case True
    then have d: "drop j recs = recs ! j # drop (j + 1) recs"
      by (simp add: Cons_nth_drop_Suc)
    show ?thesis
      using True "1.IH" [OF True]
      by (subst sum_records.simps) (simp add: d)
  next
    case False
    then show ?thesis by (subst sum_records.simps) simp
  qed
qed

lemma sum_types_drop:
  "sum_types p tys fl i acc =
     acc + (\<Sum>t\<leftarrow>drop i tys.
              \<Sum>r\<leftarrow>filter (\<lambda>r. (flags r AND fl) = fl) (stored_records p t). sizeInBytes r)"
proof (induction p tys fl i acc rule: sum_types.induct)
  case (1 p tys fl i acc)
  show ?case
  proof (cases "i < length tys")
    case True
    then have d: "drop i tys = tys ! i # drop (i + 1) tys"
      by (simp add: Cons_nth_drop_Suc)
    show ?thesis
      using True "1.IH" [OF True]
      by (subst sum_types.simps) (simp add: d sum_records_drop stored_records_def add.assoc)
  next
    case False
    then show ?thesis by (subst sum_types.simps) simp
  qed
qed

lemma memtrack_proc_sum_per_type:
  "memtrack_proc_sum p tys fl =
     (\<Sum>t\<leftarrow>tys. \<Sum>r\<leftarrow>filter (\<lambda>r. (flags r AND fl) = fl) (stored_records p t). sizeInBytes r)"
  by (simp add: memtrack_proc_sum_def sum_types_drop)

lemma sum_list_concat_filter:
  "(\<Sum>r\<leftarrow>filter P (concat xss). f r) = (\<Sum>xs\<leftarrow>xss. \<Sum>r\<leftarrow>filter P xs. (f r :: ssize_t))"
  by (induction xss) simp_all

lemma memtrack_proc_sum_selected:
  "memtrack_proc_sum p tys fl = (\<Sum>r\<leftarrow>selected_records p tys fl. sizeInBytes r)"
  by (simp add: memtrack_proc_sum_per_type selected_records_def sum_list_concat_filter
      comp_def)

lemma memtrack_proc_sum_set:
  "distinct tys \<Longrightarrow> memtrack_proc_sum p tys fl = sum_spec p (set tys) fl"
  by (simp add: memtrack_proc_sum_per_type sum_spec_def sum_list_distinct_conv_sum_set)

lemma uint_sum_list_mod:
  "uint (sum_list ws :: 64 word) = sum_list (map uint ws) mod 2 ^ 64"
proof (induction ws)
  case Nil
  show ?case by simp
next
  case (Cons a ws)
  then show ?case
    by (simp add: uint_word_ariths mod_add_right_eq)
qed

lemma sint_small:
  assumes "uint (w :: 64 word) < 2 ^ 63"
  shows "sint w = uint w"
proof -
  have "- (2 ^ 63) \<le> uint w" by (rule order_trans [of _ 0]) simp_all
  with assms show ?thesis
    by (simp add: sint_uint signed_take_bit_int_eq_self)
qed

lemma sint_sum_list_exact:
  assumes "(\<Sum>r\<leftarrow>rs. uint (sizeInBytes r)) < 2 ^ 63"
  shows "sint (\<Sum>r\<leftarrow>rs. sizeInBytes r) = (\<Sum>r\<leftarrow>rs. uint (sizeInBytes r))"
proof -
  let ?n = "\<Sum>r\<leftarrow>rs. uint (sizeInBytes r)"
  have nonneg: "0 \<le> ?n" by (rule sum_list_nonneg) auto
  have "uint (\<Sum>r\<leftarrow>rs. sizeInBytes r) = ?n mod 2 ^ 64"
    by (simp add: uint_sum_list_mod comp_def)
  also have "\<dots> = ?n" using nonneg assms by simp
  finally have u: "uint (\<Sum>r\<leftarrow>rs. sizeInBytes r) = ?n" .
  with assms show ?thesis by (simp add: sint_small)
qed

lemma stored_records_example [simp]:
  "stored_records example_snapshot OTHER = [\<lparr>sizeInBytes = 10, flags = 0\<rparr>]"
  "stored_records example_snapshot GL = [\<lparr>sizeInBytes = 7, flags = 4\<rparr>]"
  "stored_records example_snapshot GRAPHICS =
     [\<lparr>sizeInBytes = 100, flags = 2\<rparr>, \<lparr>sizeInBytes = 50, flags = 20\<rparr>]"
  "stored_records example_snapshot MULTIMEDIA = [\<lparr>sizeInBytes = 10, flags = 0\<rparr>]"
  "stored_records example_snapshot CAMERA = [\<lparr>sizeInBytes = 10, flags = 0\<rparr>]"
  by (simp_all add: stored_records_def example_snapshot_def type_index_def)

lemma stored_records_new [simp]: "stored_records memtrack_proc_new t = []"
  by (cases t) (simp_all add: stored_records_def memtrack_proc_new_def type_index_def
      NUM_TYPES_def)

text \<open>
  C1. \<^verbatim>\<open>memtrack_proc_sum\<close> returns the sum of \<^verbatim>\<open>sizeInBytes\<close> over exactly the
  records stored under the given types whose flags contain the whole required mask,
  \<open>(flags AND m) = m\<close>: a record that fails the test is not among the summed records,
  and with the zero mask every record of the selected types is summed, once for each
  occurrence of its type. For a vector of distinct types this is the sum over the set of
  types. The sum is formed in \<^verbatim>\<open>ssize_t\<close>, that is modulo \<open>2 ^ 64\<close>; read as a signed
  number it is the exact total of the sizes whenever that total is below \<open>2 ^ 63\<close>.
\<close>

theorem memtrack_proc_sum_mask_containment:
  "memtrack_proc_sum p tys m = (\<Sum>r\<leftarrow>selected_records p tys m. sizeInBytes r)
   \<and> ((flags r AND m) \<noteq> m \<longrightarrow> r \<notin> set (selected_records p tys m))
   \<and> selected_records p tys 0 = concat (map (stored_records p) tys)
   \<and> memtrack_proc_sum p tys 0 = (\<Sum>r\<leftarrow>concat (map (stored_records p) tys). sizeInBytes r)
   \<and> (distinct tys \<longrightarrow> memtrack_proc_sum p tys m = sum_spec p (set tys) m)
   \<and> ((\<Sum>r\<leftarrow>selected_records p tys m. uint (sizeInBytes r)) < 2 ^ 63 \<longrightarrow>
        sint (memtrack_proc_sum p tys m)
          = (\<Sum>r\<leftarrow>selected_records p tys m. uint (sizeInBytes r)))"
proof -
  have z: "selected_records p tys 0 = concat (map (stored_records p) tys)"
    by (simp add: selected_records_def)
  have "memtrack_proc_sum p tys 0 = (\<Sum>r\<leftarrow>selected_records p tys 0. sizeInBytes r)"
    by (rule memtrack_proc_sum_selected)
  then have a: "memtrack_proc_sum p tys 0
      = (\<Sum>r\<leftarrow>concat (map (stored_records p) tys). sizeInBytes r)"
    by (simp only: z)
  have b: "(flags r AND m) \<noteq> m \<longrightarrow> r \<notin> set (selected_records p tys m)"
    by (simp add: selected_records_def)
  show ?thesis
    using a b z memtrack_proc_sum_selected [of p tys m] memtrack_proc_sum_set [of tys p m]
      sint_sum_list_exact [of "selected_records p tys m"]
    by simp
qed

theorem memtrack_proc_sum_mask_containment_witness:
  "(flags \<lparr>sizeInBytes = 7, flags = 4\<rparr> AND 20) \<noteq> (20 :: u32)
   \<and> \<lparr>sizeInBytes = 7, flags = 4\<rparr> \<in> set (stored_records example_snapshot GL)
   \<and> \<lparr>sizeInBytes = 7, flags = 4\<rparr> \<notin> set (selected_records example_snapshot [GRAPHICS, GL] 20)
   \<and> distinct [GRAPHICS, GL]
   \<and> (\<Sum>r\<leftarrow>selected_records example_snapshot [GRAPHICS, GL] 20. uint (sizeInBytes r)) < 2 ^ 63
   \<and> memtrack_proc_sum example_snapshot [GRAPHICS, GL] 20 = 50
   \<and> sum_spec example_snapshot {GRAPHICS, GL} 20 = 50
   \<and> sint (memtrack_proc_sum example_snapshot [GRAPHICS, GL] 20) = 50
   \<and> memtrack_proc_sum example_snapshot [GRAPHICS, GL] 0 = 157"
proof -
  have s: "selected_records example_snapshot [GRAPHICS, GL] 20
             = [\<lparr>sizeInBytes = 50, flags = 20\<rparr>]"
    by (simp add: selected_records_def)
  note t = memtrack_proc_sum_mask_containment
      [of example_snapshot "[GRAPHICS, GL]" 20 "\<lparr>sizeInBytes = 7, flags = 4\<rparr>"]
  from t have a: "memtrack_proc_sum example_snapshot [GRAPHICS, GL] 20 = 50"
    by (simp add: s)
  from t have "distinct [GRAPHICS, GL] \<longrightarrow>
      memtrack_proc_sum example_snapshot [GRAPHICS, GL] 20
        = sum_spec example_snapshot (set [GRAPHICS, GL]) 20"
    by blast
  with a have b: "sum_spec example_snapshot {GRAPHICS, GL} 20 = 50"
    by simp
  from t have c: "memtrack_proc_sum example_snapshot [GRAPHICS, GL] 0 = 157"
    by simp
  from t have "(\<Sum>r\<leftarrow>selected_records example_snapshot [GRAPHICS, GL] 20.
        uint (sizeInBytes r)) < 2 ^ 63 \<longrightarrow>
      sint (memtrack_proc_sum example_snapshot [GRAPHICS, GL] 20)
        = (\<Sum>r\<leftarrow>selected_records example_snapshot [GRAPHICS, GL] 20. uint (sizeInBytes r))"
    by blast
  then have d: "sint (memtrack_proc_sum example_snapshot [GRAPHICS, GL] 20) = 50"
    by (simp add: s)
  show ?thesis
    by (simp add: s a b c d)
qed

text \<open>
  C2. Each of the six public queries is the sum of the specification over its fixed set
  of types and its mask: the empty mask for a total, the \<^verbatim>\<open>SMAPS_UNACCOUNTED\<close> bit for
  a PSS figure.
\<close>

theorem category_queries_are_sums:
  "memtrack_proc_graphics_total p = sum_spec p {GRAPHICS} 0
   \<and> memtrack_proc_graphics_pss fv p = sum_spec p {GRAPHICS} (fv SMAPS_UNACCOUNTED)
   \<and> memtrack_proc_gl_total p = sum_spec p {GL} 0
   \<and> memtrack_proc_gl_pss fv p = sum_spec p {GL} (fv SMAPS_UNACCOUNTED)
   \<and> memtrack_proc_other_total p = sum_spec p {MULTIMEDIA, CAMERA, OTHER} 0
   \<and> memtrack_proc_other_pss fv p
       = sum_spec p {MULTIMEDIA, CAMERA, OTHER} (fv SMAPS_UNACCOUNTED)"
proof -
  have one: "memtrack_proc_sum p [t] m = sum_spec p {t} m" for t m
    using memtrack_proc_sum_set [of "[t]" p m] by simp
  have three: "memtrack_proc_sum p [MULTIMEDIA, CAMERA, OTHER] m
      = sum_spec p {MULTIMEDIA, CAMERA, OTHER} m" for m
    using memtrack_proc_sum_set [of "[MULTIMEDIA, CAMERA, OTHER]" p m] by simp
  show ?thesis
    by (simp only: memtrack_proc_graphics_total_def memtrack_proc_graphics_pss_def
        memtrack_proc_gl_total_def memtrack_proc_gl_pss_def memtrack_proc_other_total_def
        memtrack_proc_other_pss_def one three simp_thms)
qed

text \<open>The two scenarios of the specification, on the example snapshot.\<close>

lemma scenario_graphics:
  "memtrack_proc_graphics_total example_snapshot = 150
   \<and> memtrack_proc_graphics_pss (flag_value example_encoding) example_snapshot = 50"
  by (simp add: memtrack_proc_graphics_total_def memtrack_proc_graphics_pss_def
      memtrack_proc_sum_per_type example_encoding_def)

lemma scenario_other:
  "memtrack_proc_other_total example_snapshot = 30
   \<and> memtrack_proc_other_pss (flag_value example_encoding) example_snapshot = 0"
  by (simp add: memtrack_proc_other_total_def memtrack_proc_other_pss_def
      memtrack_proc_sum_per_type example_encoding_def)

text \<open>
  C7. Additivity across types: the sum over a vector of types is the sum of the sums
  taken for each type alone with the same mask; for distinct types this is the sum over
  the set of types, and the sum over two vectors put together is the sum of their sums.
\<close>

theorem memtrack_proc_sum_additive:
  "memtrack_proc_sum p tys m = (\<Sum>t\<leftarrow>tys. memtrack_proc_sum p [t] m)
   \<and> (distinct tys \<longrightarrow>
        memtrack_proc_sum p tys m = (\<Sum>t\<in>set tys. memtrack_proc_sum p [t] m))
   \<and> memtrack_proc_sum p (xs @ ys) m = memtrack_proc_sum p xs m + memtrack_proc_sum p ys m"
  by (simp add: memtrack_proc_sum_per_type sum_list_distinct_conv_sum_set)

theorem memtrack_proc_sum_additive_witness:
  "distinct [MULTIMEDIA, CAMERA, OTHER]
   \<and> memtrack_proc_sum example_snapshot [MULTIMEDIA, CAMERA, OTHER] 0
       = (\<Sum>t\<in>{MULTIMEDIA, CAMERA, OTHER}. memtrack_proc_sum example_snapshot [t] 0)
   \<and> memtrack_proc_sum example_snapshot [MULTIMEDIA] 0 = 10
   \<and> memtrack_proc_sum example_snapshot [CAMERA] 0 = 10
   \<and> memtrack_proc_sum example_snapshot [OTHER] 0 = 10
   \<and> memtrack_proc_sum example_snapshot [MULTIMEDIA, CAMERA, OTHER] 0 = 30"
proof -
  have v: "memtrack_proc_sum example_snapshot [t] 0
      = (\<Sum>r\<leftarrow>stored_records example_snapshot t. sizeInBytes r)" for t
    by (simp add: memtrack_proc_sum_per_type)
  show ?thesis
    using memtrack_proc_sum_additive [of example_snapshot "[MULTIMEDIA, CAMERA, OTHER]" 0]
    by (simp add: v)
qed

text \<open>
  C10. In a snapshot fresh from \<^verbatim>\<open>memtrack_proc_new\<close> every per-type record list is
  empty, and each of the six queries returns 0.
\<close>

theorem memtrack_proc_new_queries_zero:
  "map records (types memtrack_proc_new) = replicate NUM_TYPES []
   \<and> (\<forall>t. stored_records memtrack_proc_new t = [])
   \<and> memtrack_proc_graphics_total memtrack_proc_new = 0
   \<and> memtrack_proc_graphics_pss fv memtrack_proc_new = 0
   \<and> memtrack_proc_gl_total memtrack_proc_new = 0
   \<and> memtrack_proc_gl_pss fv memtrack_proc_new = 0
   \<and> memtrack_proc_other_total memtrack_proc_new = 0
   \<and> memtrack_proc_other_pss fv memtrack_proc_new = 0"
proof -
  have "map records (types memtrack_proc_new) = replicate NUM_TYPES []"
    by (simp add: memtrack_proc_new_def)
  moreover have "memtrack_proc_sum memtrack_proc_new tys m = 0" for tys m
    by (simp add: memtrack_proc_sum_per_type)
  ultimately show ?thesis
    by (simp add: memtrack_proc_graphics_total_def memtrack_proc_graphics_pss_def
        memtrack_proc_gl_total_def memtrack_proc_gl_pss_def memtrack_proc_other_total_def
        memtrack_proc_other_pss_def)
qed

section \<open>Properties of the per-type fetch\<close>

lemma length_resize [simp]: "length (resize n v) = n"
  by (simp add: resize_def)

lemma MemtrackRecord_overwrite [simp]:
  "(x :: MemtrackRecord)\<lparr>sizeInBytes := sizeInBytes r, flags := flags r\<rparr> = r"
  by (cases x, cases r) simp

lemma copy_hidl_records_drop:
  "length v = length raw \<Longrightarrow> copy_hidl_records raw i v = take i v @ drop i raw"
proof (induction raw i v rule: copy_hidl_records.induct)
  case (1 raw i v)
  show ?case
  proof (cases "i < length raw")
    case True
    let ?v = "v[i := (v ! i)\<lparr>sizeInBytes := sizeInBytes (raw ! i), flags := flags (raw ! i)\<rparr>]"
    have "copy_hidl_records raw i v = copy_hidl_records raw (i + 1) ?v"
      using True by (subst copy_hidl_records.simps) simp
    also have "\<dots> = take (i + 1) ?v @ drop (i + 1) raw"
      using "1.IH" [OF True] "1.prems" by simp
    also have "\<dots> = take i v @ drop i raw"
      using True "1.prems"
      by (simp add: take_Suc_conv_app_nth Cons_nth_drop_Suc)
    finally show ?thesis .
  next
    case False
    then show ?thesis
      using "1.prems" by (subst copy_hidl_records.simps) simp
  qed
qed

lemma copy_aidl_records_drop:
  "length v = length raw \<Longrightarrow>
   copy_aidl_records raw i v =
     take i v @ map (\<lambda>r. \<lparr>sizeInBytes = aidl_sizeInBytes r, flags = aidl_flags r\<rparr>) (drop i raw)"
proof (induction raw i v rule: copy_aidl_records.induct)
  case (1 raw i v)
  show ?case
  proof (cases "i < length raw")
    case True
    let ?v = "v[i := (v ! i)\<lparr>sizeInBytes := aidl_sizeInBytes (raw ! i),
                              flags := aidl_flags (raw ! i)\<rparr>]"
    have r: "(v ! i)\<lparr>sizeInBytes := aidl_sizeInBytes (raw ! i), flags := aidl_flags (raw ! i)\<rparr>
        = \<lparr>sizeInBytes = aidl_sizeInBytes (raw ! i), flags = aidl_flags (raw ! i)\<rparr>"
      by (cases "v ! i") simp
    have "copy_aidl_records raw i v = copy_aidl_records raw (i + 1) ?v"
      using True by (subst copy_aidl_records.simps) simp
    also have "\<dots> = take (i + 1) ?v
        @ map (\<lambda>r. \<lparr>sizeInBytes = aidl_sizeInBytes r, flags = aidl_flags r\<rparr>) (drop (i + 1) raw)"
      using "1.IH" [OF True] "1.prems" by simp
    also have "\<dots> = take i v
        @ map (\<lambda>r. \<lparr>sizeInBytes = aidl_sizeInBytes r, flags = aidl_flags r\<rparr>) (drop i raw)"
      using True "1.prems"
      by (simp add: take_Suc_conv_app_nth r Cons_nth_drop_Suc [symmetric])
    finally show ?thesis .
  next
    case False
    then show ?thesis
      using "1.prems" by (subst copy_aidl_records.simps) simp
  qed
qed

lemma getMemory_callback_records:
  "records (snd (getMemory_callback t err status raw)) = raw"
  by (simp add: getMemory_callback_def copy_hidl_records_drop Let_def split: prod.splits)

lemma getMemory_callback_err:
  "fst (getMemory_callback t err status raw) = (if status \<noteq> SUCCESS then - 1 else err)"
  by (simp add: getMemory_callback_def Let_def split: prod.splits)

lemma calls_get_hidl_instance [simp]:
  "calls (snd (get_hidl_instance e w)) = calls w"
  by (simp add: get_hidl_instance_def Let_def)

lemma fst_get_hidl_instance [simp]:
  "fst (get_hidl_instance e w) = hidl_getService e"
  by (simp add: get_hidl_instance_def Let_def)


lemma memtrack_proc_get_type_aidl:
  assumes "get_aidl_instance e = Some service"
    and "service (calls w) pd (MemtrackType_value ty) = (isOk, raw)"
  shows "memtrack_proc_get_type e t pd ty w =
           (if isOk
            then (0, t\<lparr>records := map (\<lambda>r. \<lparr>sizeInBytes = aidl_sizeInBytes r,
                                               flags = aidl_flags r\<rparr>) raw\<rparr>,
                  w\<lparr>calls := calls w @ [Aidl_getMemory pd (MemtrackType_value ty)]\<rparr>)
            else (- 1, t, w\<lparr>calls := calls w @ [Aidl_getMemory pd (MemtrackType_value ty)]\<rparr>))"
  using assms by (simp add: memtrack_proc_get_type_def copy_aidl_records_drop)

lemma memtrack_proc_get_type_hidl:
  assumes "get_aidl_instance e = None"
    and "hidl_getService e = Some memtrack"
  shows "memtrack_proc_get_type e t pd ty w =
           (case callback_args (memtrack (calls w) pd ty) of
              None \<Rightarrow> (if ret_isOk (memtrack (calls w) pd ty) then 0 else - 1, t,
                        w\<lparr>calls := calls w @ [Hidl_getMemory pd ty]\<rparr>)
            | Some (status, raw) \<Rightarrow>
                (if ret_isOk (memtrack (calls w) pd ty) \<and> status = SUCCESS then 0 else - 1,
                 t\<lparr>records := raw\<rparr>,
                 w\<lparr>calls := calls w @ [Hidl_getMemory pd ty]\<rparr>))"
proof -
  have g: "get_hidl_instance e w = (Some memtrack, w)"
    using assms(2) by (simp add: get_hidl_instance_def)
  have c: "getMemory_callback t 0 status raw
      = (if status \<noteq> SUCCESS then - 1 else 0, t\<lparr>records := raw\<rparr>)" for status raw
    by (simp add: getMemory_callback_def copy_hidl_records_drop)
  show ?thesis
    using assms(1) by (simp add: memtrack_proc_get_type_def g c split: option.splits)
qed

lemma memtrack_proc_get_type_none:
  assumes "get_aidl_instance e = None"
    and "hidl_getService e = None"
  shows "memtrack_proc_get_type e t pd ty w = (- 1, t, snd (get_hidl_instance e w))"
  using assms by (simp add: memtrack_proc_get_type_def get_hidl_instance_def)

lemma memtrack_proc_get_type_ret:
  "fst (memtrack_proc_get_type e t pd ty w) = 0 \<or> fst (memtrack_proc_get_type e t pd ty w) = - 1"
proof (cases "get_aidl_instance e")
  case (Some service)
  obtain isOk raw where "service (calls w) pd (MemtrackType_value ty) = (isOk, raw)"
    by (cases "service (calls w) pd (MemtrackType_value ty)")
  with Some show ?thesis by (simp add: memtrack_proc_get_type_aidl)
next
  case None
  show ?thesis
  proof (cases "hidl_getService e")
    case a: None
    with None show ?thesis by (simp add: memtrack_proc_get_type_none)
  next
    case (Some memtrack)
    with None show ?thesis
      by (simp add: memtrack_proc_get_type_hidl split: option.splits)
  qed
qed

lemma memtrack_proc_get_type_calls:
  "calls (snd (snd (memtrack_proc_get_type e t pd ty w))) =
     calls w @ (if provider_resolved e then [provider_call_for e pd ty] else [])"
proof (cases "get_aidl_instance e")
  case (Some service)
  obtain isOk raw where "service (calls w) pd (MemtrackType_value ty) = (isOk, raw)"
    by (cases "service (calls w) pd (MemtrackType_value ty)")
  with Some show ?thesis
    by (simp add: memtrack_proc_get_type_aidl provider_resolved_def provider_call_for_def)
next
  case None
  show ?thesis
  proof (cases "hidl_getService e")
    case a: None
    with None show ?thesis
      by (simp add: memtrack_proc_get_type_none provider_resolved_def)
  next
    case (Some memtrack)
    with None show ?thesis
      by (simp add: memtrack_proc_get_type_hidl provider_resolved_def provider_call_for_def
          split: option.splits)
  qed
qed


lemma length_MemtrackType_enum [simp]: "length MemtrackType_enum = NUM_TYPES"
  by (simp add: MemtrackType_enum_def NUM_TYPES_def)

lemma fetched_upto_Suc_Some:
  assumes "fetched_upto e pd (Suc k) p w = Some (p2, w2)"
  obtains p1 w1 t1 where "fetched_upto e pd k p w = Some (p1, w1)"
    and "memtrack_proc_get_type e (types p1 ! k) pd (MemtrackType_of_index k) w1 = (0, t1, w2)"
    and "p2 = p1\<lparr>types := (types p1)[k := t1]\<rparr>"
  using assms by (auto split: option.splits prod.splits if_splits)

lemma memtrack_proc_get_loop_step:
  assumes "i < NUM_TYPES"
    and "memtrack_proc_get_type e (types p ! i) pd (MemtrackType_of_index i) w = (ret, t1, w1)"
  shows "memtrack_proc_get_loop e pd i p w =
           (if ret \<noteq> 0 then (ret, p\<lparr>types := (types p)[i := t1]\<rparr>, w1)
            else memtrack_proc_get_loop e pd (i + 1) (p\<lparr>types := (types p)[i := t1]\<rparr>) w1)"
  using assms by (subst memtrack_proc_get_loop.simps) (simp add: Let_def)

lemma memtrack_proc_get_loop_end:
  "\<not> i < NUM_TYPES \<Longrightarrow> memtrack_proc_get_loop e pd i p w = (0, p, w)"
  by (subst memtrack_proc_get_loop.simps) (simp add: memtrack_proc_sanity_check_def)

lemma memtrack_proc_get_loop_fetched:
  "k \<le> NUM_TYPES \<Longrightarrow> fetched_upto e pd k p w = Some (p1, w1) \<Longrightarrow>
   memtrack_proc_get_loop e pd 0 p w = memtrack_proc_get_loop e pd k p1 w1"
proof (induction k arbitrary: p1 w1)
  case 0
  then show ?case by simp
next
  case (Suc k)
  from Suc.prems(2) obtain q v t1 where
    f: "fetched_upto e pd k p w = Some (q, v)" and
    g: "memtrack_proc_get_type e (types q ! k) pd (MemtrackType_of_index k) v = (0, t1, w1)" and
    p1: "p1 = q\<lparr>types := (types q)[k := t1]\<rparr>"
    by (rule fetched_upto_Suc_Some)
  from Suc.prems(1) have k: "k < NUM_TYPES" by simp
  then have "memtrack_proc_get_loop e pd 0 p w = memtrack_proc_get_loop e pd k q v"
    using Suc.IH [OF _ f] by simp
  also have "\<dots> = memtrack_proc_get_loop e pd (Suc k) p1 w1"
    using memtrack_proc_get_loop_step [OF k g] p1 by simp
  finally show ?case .
qed

lemma fetched_upto_calls:
  "k \<le> NUM_TYPES \<Longrightarrow> fetched_upto e pd k p w = Some (p1, w1) \<Longrightarrow>
   calls w1 = calls w @ (if provider_resolved e
                         then map (provider_call_for e pd) (take k MemtrackType_enum) else [])"
proof (induction k arbitrary: p1 w1)
  case 0
  then show ?case by simp
next
  case (Suc k)
  from Suc.prems(2) obtain q v t1 where
    f: "fetched_upto e pd k p w = Some (q, v)" and
    g: "memtrack_proc_get_type e (types q ! k) pd (MemtrackType_of_index k) v = (0, t1, w1)"
    by (rule fetched_upto_Suc_Some)
  from Suc.prems(1) have k: "k < length MemtrackType_enum" by simp
  have "calls w1 = calls v @ (if provider_resolved e
                              then [provider_call_for e pd (MemtrackType_of_index k)] else [])"
    using memtrack_proc_get_type_calls [of e "types q ! k" pd "MemtrackType_of_index k" v] g
    by simp
  moreover have "calls v = calls w @ (if provider_resolved e
                         then map (provider_call_for e pd) (take k MemtrackType_enum) else [])"
    using Suc.IH [OF _ f] Suc.prems(1) by simp
  ultimately show ?case
    using k by (simp add: take_Suc_conv_app_nth MemtrackType_of_index_def)
qed

lemma memtrack_proc_get_loop_ret:
  "fst (memtrack_proc_get_loop e pd i p w) = 0 \<or> fst (memtrack_proc_get_loop e pd i p w) = - 1"
proof (induction e pd i p w rule: memtrack_proc_get_loop.induct)
  case (1 e pd i p w)
  show ?case
  proof (cases "i < NUM_TYPES")
    case True
    obtain ret t1 w1 where
      g: "memtrack_proc_get_type e (types p ! i) pd (MemtrackType_of_index i) w = (ret, t1, w1)"
      by (cases "memtrack_proc_get_type e (types p ! i) pd (MemtrackType_of_index i) w")
    have r: "ret = 0 \<or> ret = - 1"
      using memtrack_proc_get_type_ret [of e "types p ! i" pd "MemtrackType_of_index i" w] g
      by simp
    show ?thesis
    proof (cases "ret = 0")
      case True
      with "1.IH" [OF \<open>i < NUM_TYPES\<close> g [symmetric] refl refl] 
      show ?thesis
        using memtrack_proc_get_loop_step [OF \<open>i < NUM_TYPES\<close> g] by simp
    next
      case False
      with r show ?thesis
        using memtrack_proc_get_loop_step [OF \<open>i < NUM_TYPES\<close> g] by simp
    qed
  next
    case False
    then show ?thesis by (simp add: memtrack_proc_get_loop_end)
  qed
qed


lemma legacy_fetch_reports_error:
  assumes "get_aidl_instance e = None"
    and "fst (get_hidl_instance e w) = Some memtrack"
    and "\<not> ret_isOk (memtrack (calls w) pd ty)
         \<or> (\<exists>status raw. callback_args (memtrack (calls w) pd ty) = Some (status, raw)
                \<and> status \<noteq> SUCCESS)"
  shows "fst (memtrack_proc_get_type e t pd ty w) = - 1"
  using assms by (auto simp: memtrack_proc_get_type_hidl split: option.splits)

text \<open>
  C6. Normalisation keeps every record. When the modern provider answers a call with
  success, the stored list has the sizes and the flags of the raw records, in the same
  number and order (the signed fields of the raw record and the unsigned fields of the
  stored one hold the same bits). When the legacy provider invokes the callback, the
  stored list is the list it passed, whatever the status.
\<close>

theorem fetch_preserves_records:
  "(get_aidl_instance e = Some service
      \<and> service (calls w) pd (MemtrackType_value ty) = (True, raw_aidl) \<longrightarrow>
      fst (memtrack_proc_get_type e t pd ty w) = 0
      \<and> map sizeInBytes (records (fst (snd (memtrack_proc_get_type e t pd ty w))))
          = map aidl_sizeInBytes raw_aidl
      \<and> map flags (records (fst (snd (memtrack_proc_get_type e t pd ty w))))
          = map aidl_flags raw_aidl)
   \<and> (get_aidl_instance e = None
      \<and> fst (get_hidl_instance e w) = Some memtrack
      \<and> callback_args (memtrack (calls w) pd ty) = Some (status, raw) \<longrightarrow>
      records (fst (snd (memtrack_proc_get_type e t pd ty w))) = raw)"
  by (simp add: memtrack_proc_get_type_aidl memtrack_proc_get_type_hidl comp_def)

theorem fetch_preserves_records_witness:
  "get_aidl_instance aidl_env_ok = Some aidl_service_ok
   \<and> aidl_service_ok (calls world0) 7 (MemtrackType_value GL)
       = (True, [\<lparr>aidl_sizeInBytes = 4096, aidl_flags = 6\<rparr>,
                 \<lparr>aidl_sizeInBytes = 50, aidl_flags = 20\<rparr>])
   \<and> map sizeInBytes (records (fst (snd (memtrack_proc_get_type aidl_env_ok
         \<lparr>type = OTHER, records = [\<lparr>sizeInBytes = 1, flags = 1\<rparr>]\<rparr> 7 GL world0))))
       = [4096, 50]
   \<and> map flags (records (fst (snd (memtrack_proc_get_type aidl_env_ok
         \<lparr>type = OTHER, records = [\<lparr>sizeInBytes = 1, flags = 1\<rparr>]\<rparr> 7 GL world0))))
       = [6, 20]
   \<and> records (fst (snd (memtrack_proc_get_type aidl_env_ok
         \<lparr>type = OTHER, records = [\<lparr>sizeInBytes = 1, flags = 1\<rparr>]\<rparr> 7 GL world0)))
       = [\<lparr>sizeInBytes = 4096, flags = 6\<rparr>, \<lparr>sizeInBytes = 50, flags = 20\<rparr>]
   \<and> get_aidl_instance hidl_env_ok = None
   \<and> fst (get_hidl_instance hidl_env_ok world0) = Some hidl_service_ok
   \<and> callback_args (hidl_service_ok (calls world0) 7 GL)
       = Some (SUCCESS, [\<lparr>sizeInBytes = 100, flags = 2\<rparr>, \<lparr>sizeInBytes = 50, flags = 20\<rparr>])
   \<and> records (fst (snd (memtrack_proc_get_type hidl_env_ok
         \<lparr>type = OTHER, records = [\<lparr>sizeInBytes = 1, flags = 1\<rparr>]\<rparr> 7 GL world0)))
       = [\<lparr>sizeInBytes = 100, flags = 2\<rparr>, \<lparr>sizeInBytes = 50, flags = 20\<rparr>]"
proof -
  let ?t = "\<lparr>type = OTHER, records = [\<lparr>sizeInBytes = 1, flags = 1\<rparr>]\<rparr>"
  let ?ra = "[\<lparr>aidl_sizeInBytes = 4096, aidl_flags = 6\<rparr>,
              \<lparr>aidl_sizeInBytes = 50, aidl_flags = 20\<rparr>]"
  let ?rh = "[\<lparr>sizeInBytes = 100, flags = 2\<rparr>, \<lparr>sizeInBytes = 50, flags = 20\<rparr>]"
  have a1: "get_aidl_instance aidl_env_ok = Some aidl_service_ok"
    by (simp add: get_aidl_instance_def aidl_env_ok_def)
  have a2: "aidl_service_ok (calls world0) 7 (MemtrackType_value GL) = (True, ?ra)"
    by (simp add: aidl_service_ok_def)
  have h1: "get_aidl_instance hidl_env_ok = None"
    by (simp add: get_aidl_instance_def hidl_env_ok_def)
  have h2: "fst (get_hidl_instance hidl_env_ok world0) = Some hidl_service_ok"
    by (simp add: hidl_env_ok_def)
  have h3: "callback_args (hidl_service_ok (calls world0) 7 GL) = Some (SUCCESS, ?rh)"
    by (simp add: hidl_service_ok_def)
  have a: "records (fst (snd (memtrack_proc_get_type aidl_env_ok ?t 7 GL world0)))
      = [\<lparr>sizeInBytes = 4096, flags = 6\<rparr>, \<lparr>sizeInBytes = 50, flags = 20\<rparr>]"
    by code_simp
  have b: "map sizeInBytes (records (fst (snd (memtrack_proc_get_type aidl_env_ok ?t 7 GL
        world0)))) = map aidl_sizeInBytes ?ra
      \<and> map flags (records (fst (snd (memtrack_proc_get_type aidl_env_ok ?t 7 GL world0))))
        = map aidl_flags ?ra"
    using fetch_preserves_records
      [of aidl_env_ok aidl_service_ok world0 7 GL ?ra ?t hidl_service_ok SUCCESS ?rh] a1 a2
    by blast
  have "records (fst (snd (memtrack_proc_get_type hidl_env_ok ?t 7 GL world0))) = ?rh"
    using fetch_preserves_records
      [of hidl_env_ok aidl_service_ok world0 7 GL ?ra ?t hidl_service_ok SUCCESS ?rh] h1 h2 h3
    by blast
  with a1 a2 h1 h2 h3 a b show ?thesis by simp
qed

text \<open>
  C8. If neither provider can be resolved, the per-type fetch returns the error \<open>-1\<close>,
  leaves the record list alone and issues no call to a provider.
\<close>

theorem memtrack_proc_get_type_no_provider:
  assumes "get_aidl_instance e = None"
    and "fst (get_hidl_instance e w) = None"
  shows "fst (memtrack_proc_get_type e t pd ty w) = - 1
         \<and> fst (snd (memtrack_proc_get_type e t pd ty w)) = t
         \<and> calls (snd (snd (memtrack_proc_get_type e t pd ty w))) = calls w"
  using assms by (simp add: memtrack_proc_get_type_none)

theorem memtrack_proc_get_type_no_provider_witness:
  "get_aidl_instance env_no_provider = None
   \<and> fst (get_hidl_instance env_no_provider world0) = None
   \<and> fst (memtrack_proc_get_type env_no_provider \<lparr>type = OTHER, records = []\<rparr> 7 GL world0) = - 1
   \<and> calls (snd (snd (memtrack_proc_get_type env_no_provider
         \<lparr>type = OTHER, records = []\<rparr> 7 GL world0))) = []"
proof -
  have a: "get_aidl_instance env_no_provider = None"
    by (simp add: get_aidl_instance_def env_no_provider_def)
  have h: "fst (get_hidl_instance env_no_provider world0) = None"
    by (simp add: env_no_provider_def)
  show ?thesis
    using memtrack_proc_get_type_no_provider
      [OF a h, of "\<lparr>type = OTHER, records = []\<rparr>" 7 GL] a h
    by (simp add: world0_def)
qed

text \<open>
  C4, at the failing input. The legacy provider invokes the callback with the status
  \<^verbatim>\<open>TYPE_NOT_SUPPORTED\<close> and one record. The fetch reports the error, but the record
  list handed back holds the record: after \<^verbatim>\<open>resize(0)\<close> the callback goes on to
  resize to the size of the list it received and to copy it.
\<close>

theorem legacy_failure_status_keeps_records:
  "memtrack_proc_get_type hidl_env_status_failure \<lparr>type = OTHER, records = []\<rparr> 1 GRAPHICS
       world0
     = (- 1, \<lparr>type = OTHER, records = [\<lparr>sizeInBytes = 4096, flags = 4\<rparr>]\<rparr>,
        \<lparr>calls = [Hidl_getMemory 1 GRAPHICS], logged = False, logcat = []\<rparr>)"
  by code_simp

section \<open>Properties of populate\<close>

text \<open>
  C3. Populate fetches the types in enumeration order and stops at the first failure.
  If the fetches of the types of index below \<open>k\<close> succeeded and the fetch of type \<open>k\<close>
  returns the error \<open>ret\<close>, then populate returns \<open>ret\<close>, in the very state the failing
  fetch left: the calls issued to the provider are those for the types of index up to
  \<open>k\<close>, in order, and none for a later type.
\<close>

theorem memtrack_proc_get_stops_at_first_error:
  assumes "k < NUM_TYPES"
    and "fetched_upto e pd k (p\<lparr>pid := pd\<rparr>) w = Some (p1, w1)"
    and "memtrack_proc_get_type e (types p1 ! k) pd (MemtrackType_of_index k) w1 = (ret, t1, w2)"
    and "ret \<noteq> 0"
  shows "memtrack_proc_get e (Some p) pd w = (ret, Some (p1\<lparr>types := (types p1)[k := t1]\<rparr>), w2)
         \<and> calls w2 = calls w @ (if provider_resolved e
              then map (provider_call_for e pd) (take (Suc k) MemtrackType_enum) else [])"
proof -
  have "memtrack_proc_get_loop e pd 0 (p\<lparr>pid := pd\<rparr>) w = memtrack_proc_get_loop e pd k p1 w1"
    using assms(1,2) by (intro memtrack_proc_get_loop_fetched) simp_all
  also have "\<dots> = (ret, p1\<lparr>types := (types p1)[k := t1]\<rparr>, w2)"
    using memtrack_proc_get_loop_step [OF assms(1,3)] assms(4) by simp
  finally have a: "memtrack_proc_get e (Some p) pd w
      = (ret, Some (p1\<lparr>types := (types p1)[k := t1]\<rparr>), w2)"
    by (simp add: memtrack_proc_get_def)
  have "calls w1 = calls w @ (if provider_resolved e
          then map (provider_call_for e pd) (take k MemtrackType_enum) else [])"
    using assms(1,2) by (intro fetched_upto_calls) simp_all
  moreover have "calls w2 = calls w1 @ (if provider_resolved e
          then [provider_call_for e pd (MemtrackType_of_index k)] else [])"
    using memtrack_proc_get_type_calls [of e "types p1 ! k" pd "MemtrackType_of_index k" w1]
      assms(3) by simp
  ultimately have "calls w2 = calls w @ (if provider_resolved e
      then map (provider_call_for e pd) (take (Suc k) MemtrackType_enum) else [])"
    using assms(1) by (simp add: take_Suc_conv_app_nth MemtrackType_of_index_def)
  with a show ?thesis by simp
qed

theorem memtrack_proc_get_stops_at_first_error_witness:
  "(2 :: nat) < NUM_TYPES
   \<and> fetched_upto aidl_env_graphics_fails 7 2 (memtrack_proc_new\<lparr>pid := 7\<rparr>) world0
       = Some (\<lparr>pid = 7, types =
                  [\<lparr>type = OTHER, records = [\<lparr>sizeInBytes = 4096, flags = 6\<rparr>]\<rparr>,
                   \<lparr>type = OTHER, records = [\<lparr>sizeInBytes = 4096, flags = 6\<rparr>]\<rparr>,
                   \<lparr>type = OTHER, records = []\<rparr>,
                   \<lparr>type = OTHER, records = []\<rparr>,
                   \<lparr>type = OTHER, records = []\<rparr>]\<rparr>,
               \<lparr>calls = [Aidl_getMemory 7 0, Aidl_getMemory 7 1],
                logged = False, logcat = []\<rparr>)
   \<and> memtrack_proc_get_type aidl_env_graphics_fails \<lparr>type = OTHER, records = []\<rparr> 7 GRAPHICS
         \<lparr>calls = [Aidl_getMemory 7 0, Aidl_getMemory 7 1], logged = False, logcat = []\<rparr>
       = (- 1, \<lparr>type = OTHER, records = []\<rparr>,
          \<lparr>calls = [Aidl_getMemory 7 0, Aidl_getMemory 7 1, Aidl_getMemory 7 2],
           logged = False, logcat = []\<rparr>)
   \<and> memtrack_proc_get aidl_env_graphics_fails (Some memtrack_proc_new) 7 world0
       = (- 1,
          Some \<lparr>pid = 7, types =
                  [\<lparr>type = OTHER, records = [\<lparr>sizeInBytes = 4096, flags = 6\<rparr>]\<rparr>,
                   \<lparr>type = OTHER, records = [\<lparr>sizeInBytes = 4096, flags = 6\<rparr>]\<rparr>,
                   \<lparr>type = OTHER, records = []\<rparr>,
                   \<lparr>type = OTHER, records = []\<rparr>,
                   \<lparr>type = OTHER, records = []\<rparr>]\<rparr>,
          \<lparr>calls = [Aidl_getMemory 7 0, Aidl_getMemory 7 1, Aidl_getMemory 7 2],
           logged = False, logcat = []\<rparr>)"
proof -
  let ?p1 = "\<lparr>pid = 7, types =
                  [\<lparr>type = OTHER, records = [\<lparr>sizeInBytes = 4096, flags = 6\<rparr>]\<rparr>,
                   \<lparr>type = OTHER, records = [\<lparr>sizeInBytes = 4096, flags = 6\<rparr>]\<rparr>,
                   \<lparr>type = OTHER, records = []\<rparr>,
                   \<lparr>type = OTHER, records = []\<rparr>,
                   \<lparr>type = OTHER, records = []\<rparr>]\<rparr>"
  let ?w1 = "\<lparr>calls = [Aidl_getMemory 7 0, Aidl_getMemory 7 1], logged = False, logcat = []\<rparr>"
  let ?w2 = "\<lparr>calls = [Aidl_getMemory 7 0, Aidl_getMemory 7 1, Aidl_getMemory 7 2],
             logged = False, logcat = []\<rparr>"
  let ?t = "\<lparr>type = OTHER, records = []\<rparr>"
  have k: "(2 :: nat) < NUM_TYPES"
    by (simp add: NUM_TYPES_def)
  have f: "fetched_upto aidl_env_graphics_fails 7 2 (memtrack_proc_new\<lparr>pid := 7\<rparr>) world0
      = Some (?p1, ?w1)"
    by code_simp
  have g: "memtrack_proc_get_type aidl_env_graphics_fails ?t 7 GRAPHICS ?w1 = (- 1, ?t, ?w2)"
    by code_simp
  have i: "types ?p1 ! 2 = ?t" "MemtrackType_of_index 2 = GRAPHICS"
    by (simp_all add: MemtrackType_of_index_def MemtrackType_enum_def)
  have u: "?p1\<lparr>types := (types ?p1)[2 := ?t]\<rparr> = ?p1"
    by code_simp
  from g have g': "memtrack_proc_get_type aidl_env_graphics_fails (types ?p1 ! 2) 7
      (MemtrackType_of_index 2) ?w1 = (- 1, ?t, ?w2)"
    by (simp only: i)
  have "memtrack_proc_get aidl_env_graphics_fails (Some memtrack_proc_new) 7 world0
      = (- 1, Some (?p1\<lparr>types := (types ?p1)[2 := ?t]\<rparr>), ?w2)"
    using memtrack_proc_get_stops_at_first_error [OF k f g'] by simp
  then have "memtrack_proc_get aidl_env_graphics_fails (Some memtrack_proc_new) 7 world0
      = (- 1, Some ?p1, ?w2)"
    by (simp only: u)
  with k f g show ?thesis by simp
qed

lemma memtrack_proc_get_loop_length:
  "length (types (fst (snd (memtrack_proc_get_loop e pd i p w)))) = length (types p)"
proof (induction e pd i p w rule: memtrack_proc_get_loop.induct)
  case (1 e pd i p w)
  show ?case
  proof (cases "i < NUM_TYPES")
    case True
    obtain ret t1 w1 where
      g: "memtrack_proc_get_type e (types p ! i) pd (MemtrackType_of_index i) w = (ret, t1, w1)"
      by (cases "memtrack_proc_get_type e (types p ! i) pd (MemtrackType_of_index i) w")
    show ?thesis
      using "1.IH" [OF True g [symmetric] refl refl] memtrack_proc_get_loop_step [OF True g]
      by (cases "ret = 0") simp_all
  next
    case False
    then show ?thesis by (simp add: memtrack_proc_get_loop_end)
  qed
qed

lemma memtrack_proc_get_all_fetched:
  assumes "fetched_upto e pd NUM_TYPES (p\<lparr>pid := pd\<rparr>) w = Some (p1, w1)"
  shows "memtrack_proc_get e (Some p) pd w = (0, Some p1, w1)"
proof -
  have "memtrack_proc_get_loop e pd 0 (p\<lparr>pid := pd\<rparr>) w
      = memtrack_proc_get_loop e pd NUM_TYPES p1 w1"
    using assms by (intro memtrack_proc_get_loop_fetched) simp_all
  then show ?thesis
    by (simp add: memtrack_proc_get_def memtrack_proc_get_loop_end)
qed

lemma memtrack_proc_get_loop_calls:
  "i \<le> NUM_TYPES \<Longrightarrow>
   \<exists>n. i \<le> n \<and> n \<le> NUM_TYPES \<and> (i < NUM_TYPES \<longrightarrow> i < n)
     \<and> calls (snd (snd (memtrack_proc_get_loop e pd i p w)))
         = calls w @ (if provider_resolved e
             then map (provider_call_for e pd) (drop i (take n MemtrackType_enum)) else [])"
proof (induction e pd i p w rule: memtrack_proc_get_loop.induct)
  case (1 e pd i p w)
  show ?case
  proof (cases "i < NUM_TYPES")
    case True
    obtain ret t1 w1 where
      g: "memtrack_proc_get_type e (types p ! i) pd (MemtrackType_of_index i) w = (ret, t1, w1)"
      by (cases "memtrack_proc_get_type e (types p ! i) pd (MemtrackType_of_index i) w")
    have c1: "calls w1 = calls w @ (if provider_resolved e
        then [provider_call_for e pd (MemtrackType_enum ! i)] else [])"
      using memtrack_proc_get_type_calls [of e "types p ! i" pd "MemtrackType_of_index i" w] g
      by (simp add: MemtrackType_of_index_def)
    let ?p1 = "p\<lparr>types := (types p)[i := t1]\<rparr>"
    show ?thesis
    proof (cases "ret = 0")
      case False
      then have l: "memtrack_proc_get_loop e pd i p w = (ret, ?p1, w1)"
        using memtrack_proc_get_loop_step [OF True g] by simp
      have d: "drop i (take (Suc i) MemtrackType_enum) = [MemtrackType_enum ! i]"
        using True by (simp add: take_Suc_conv_app_nth)
      have "i \<le> Suc i \<and> Suc i \<le> NUM_TYPES \<and> (i < NUM_TYPES \<longrightarrow> i < Suc i)
        \<and> calls (snd (snd (memtrack_proc_get_loop e pd i p w)))
            = calls w @ (if provider_resolved e
                then map (provider_call_for e pd) (drop i (take (Suc i) MemtrackType_enum))
                else [])"
        using True by (simp add: l c1 d)
      then show ?thesis by blast
    next
      case ret0: True
      then have l: "memtrack_proc_get_loop e pd i p w
          = memtrack_proc_get_loop e pd (i + 1) ?p1 w1"
        using memtrack_proc_get_loop_step [OF True g] by simp
      from True have "i + 1 \<le> NUM_TYPES" by simp
      from "1.IH" [OF True g [symmetric] refl refl _ this] ret0
      obtain n where n: "i + 1 \<le> n" "n \<le> NUM_TYPES"
        and c2: "calls (snd (snd (memtrack_proc_get_loop e pd (i + 1) ?p1 w1)))
            = calls w1 @ (if provider_resolved e
                then map (provider_call_for e pd) (drop (i + 1) (take n MemtrackType_enum))
                else [])"
        by auto
      have d: "drop i (take n MemtrackType_enum)
          = MemtrackType_enum ! i # drop (i + 1) (take n MemtrackType_enum)"
        using n by (simp add: Cons_nth_drop_Suc [symmetric])
      have "i \<le> n \<and> n \<le> NUM_TYPES \<and> (i < NUM_TYPES \<longrightarrow> i < n)
        \<and> calls (snd (snd (memtrack_proc_get_loop e pd i p w)))
            = calls w @ (if provider_resolved e
                then map (provider_call_for e pd) (drop i (take n MemtrackType_enum))
                else [])"
        using n c2 by (simp add: l c1 d)
      then show ?thesis by blast
    qed
  next
    case False
    with "1.prems" have "i = NUM_TYPES" by simp
    then have "i \<le> i \<and> i \<le> NUM_TYPES \<and> (i < NUM_TYPES \<longrightarrow> i < i)
        \<and> calls (snd (snd (memtrack_proc_get_loop e pd i p w)))
            = calls w @ (if provider_resolved e
                then map (provider_call_for e pd) (drop i (take i MemtrackType_enum))
                else [])"
      by (simp add: memtrack_proc_get_loop_end)
    then show ?thesis by blast
  qed
qed

lemma memtrack_proc_get_loop_pid:
  "pid (fst (snd (memtrack_proc_get_loop e pd i p w))) = pid p"
proof (induction e pd i p w rule: memtrack_proc_get_loop.induct)
  case (1 e pd i p w)
  show ?case
  proof (cases "i < NUM_TYPES")
    case True
    obtain ret t1 w1 where
      g: "memtrack_proc_get_type e (types p ! i) pd (MemtrackType_of_index i) w = (ret, t1, w1)"
      by (cases "memtrack_proc_get_type e (types p ! i) pd (MemtrackType_of_index i) w")
    show ?thesis
      using "1.IH" [OF True g [symmetric] refl refl] memtrack_proc_get_loop_step [OF True g]
      by (cases "ret = 0") simp_all
  next
    case False
    then show ?thesis by (simp add: memtrack_proc_get_loop_end)
  qed
qed

text \<open>
  C5, as the code has it. The only argument populate checks is the snapshot pointer: for
  a null pointer it returns \<open>- EINVAL\<close> and nothing else happens, whatever the pid, and
  in no other case does it return \<open>- EINVAL\<close>. The pid is not validated: for every
  pid, negative or not, populate stores it in the snapshot and attempts the fetch of at
  least the first type, and every call it issues to a resolved provider carries that pid
  unchanged.
\<close>

theorem memtrack_proc_get_null_snapshot:
  "memtrack_proc_get e None pd w = (- EINVAL, None, w)
   \<and> (fst (memtrack_proc_get e popt pd w) = - EINVAL) = (popt = None)
   \<and> map_option pid (fst (snd (memtrack_proc_get e (Some p) pd w))) = Some pd
   \<and> (\<exists>n. 0 < n \<and> n \<le> NUM_TYPES
        \<and> calls (snd (snd (memtrack_proc_get e (Some p) pd w)))
            = calls w @ (if provider_resolved e
                then map (provider_call_for e pd) (take n MemtrackType_enum) else []))"
proof -
  have n: "memtrack_proc_get e None pd w = (- EINVAL, None, w)"
    by (simp add: memtrack_proc_get_def)
  have "fst (memtrack_proc_get e (Some q) pd w) \<noteq> - EINVAL" for q
    using memtrack_proc_get_loop_ret [of e pd 0 "q\<lparr>pid := pd\<rparr>" w]
    by (auto simp: memtrack_proc_get_def EINVAL_def split: prod.splits)
  with n have a: "(fst (memtrack_proc_get e popt pd w) = - EINVAL) = (popt = None)"
    by (cases popt) simp_all
  obtain ret p1 w1 where
    l: "memtrack_proc_get_loop e pd 0 (p\<lparr>pid := pd\<rparr>) w = (ret, p1, w1)"
    by (cases "memtrack_proc_get_loop e pd 0 (p\<lparr>pid := pd\<rparr>) w")
  have b: "map_option pid (fst (snd (memtrack_proc_get e (Some p) pd w))) = Some pd"
    using memtrack_proc_get_loop_pid [of e pd 0 "p\<lparr>pid := pd\<rparr>" w]
    by (simp add: memtrack_proc_get_def l)
  have s: "snd (snd (memtrack_proc_get e (Some p) pd w))
      = snd (snd (memtrack_proc_get_loop e pd 0 (p\<lparr>pid := pd\<rparr>) w))"
    by (simp add: memtrack_proc_get_def l)
  have "0 < NUM_TYPES" by (simp add: NUM_TYPES_def)
  with memtrack_proc_get_loop_calls [of 0 e pd "p\<lparr>pid := pd\<rparr>" w]
  obtain n where "0 < n" "n \<le> NUM_TYPES"
    and "calls (snd (snd (memtrack_proc_get_loop e pd 0 (p\<lparr>pid := pd\<rparr>) w)))
      = calls w @ (if provider_resolved e
          then map (provider_call_for e pd) (drop 0 (take n MemtrackType_enum)) else [])"
    by auto
  then have "0 < n \<and> n \<le> NUM_TYPES
        \<and> calls (snd (snd (memtrack_proc_get e (Some p) pd w)))
            = calls w @ (if provider_resolved e
                then map (provider_call_for e pd) (take n MemtrackType_enum) else [])"
    by (simp only: s drop_0 simp_thms)
  then have c: "\<exists>n. 0 < n \<and> n \<le> NUM_TYPES
        \<and> calls (snd (snd (memtrack_proc_get e (Some p) pd w)))
            = calls w @ (if provider_resolved e
                then map (provider_call_for e pd) (take n MemtrackType_enum) else [])"
    by (rule exI)
  from n a b c show ?thesis by blast
qed

text \<open>
  C5, as stated, fails: with the negative pid \<open>-1\<close> and a provider that answers,
  populate does not report an invalid argument. It returns 0 after five fetches that
  handed the pid to the provider.
\<close>

theorem memtrack_proc_get_negative_pid_counterexample:
  "sint (- 1 :: pid_t) < 0
   \<and> fst (memtrack_proc_get aidl_env_ok (Some memtrack_proc_new) (- 1) world0) = 0
   \<and> fst (memtrack_proc_get aidl_env_ok (Some memtrack_proc_new) (- 1) world0) \<noteq> - EINVAL
   \<and> calls (snd (snd (memtrack_proc_get aidl_env_ok (Some memtrack_proc_new) (- 1) world0)))
       = [Aidl_getMemory (- 1) 0, Aidl_getMemory (- 1) 1, Aidl_getMemory (- 1) 2,
          Aidl_getMemory (- 1) 3, Aidl_getMemory (- 1) 4]"
proof -
  have a: "fst (memtrack_proc_get aidl_env_ok (Some memtrack_proc_new) (- 1) world0) = 0"
    by code_simp
  have b: "calls (snd (snd (memtrack_proc_get aidl_env_ok (Some memtrack_proc_new) (- 1)
        world0)))
      = [Aidl_getMemory (- 1) 0, Aidl_getMemory (- 1) 1, Aidl_getMemory (- 1) 2,
         Aidl_getMemory (- 1) 3, Aidl_getMemory (- 1) 4]"
    by code_simp
  show ?thesis
    by (simp add: a b EINVAL_def)
qed

section \<open>Properties of the static assertions\<close>

text \<open>
  C9. In a program that passes its static assertions the legacy and the modern interface
  give every memory type and every flag the same numeric value, so a mask built from
  flags is the same in both encodings.
\<close>

theorem static_asserts_encodings_agree:
  assumes "static_asserts V1_0 V_aidl"
  shows "(\<forall>t. type_value V1_0 t = type_value V_aidl t)
         \<and> (\<forall>f. flag_value V1_0 f = flag_value V_aidl f)
         \<and> (\<forall>fs. mask_of V1_0 fs = mask_of V_aidl fs)"
proof -
  have t: "type_value V1_0 t = type_value V_aidl t" for t
    using assms by (cases t) (simp_all add: static_asserts_def)
  have f: "flag_value V1_0 f = flag_value V_aidl f" for f
    using assms by (cases f) (simp_all add: static_asserts_def)
  then have "flag_value V1_0 = flag_value V_aidl"
    by (rule ext)
  then have "mask_of V1_0 fs = mask_of V_aidl fs" for fs
    by (simp add: mask_of_def)
  with t f show ?thesis by simp
qed

theorem static_asserts_encodings_agree_witness:
  "static_asserts example_encoding example_encoding_aidl
   \<and> type_value example_encoding GRAPHICS = 2
   \<and> type_value example_encoding_aidl GRAPHICS = 2
   \<and> flag_value example_encoding SMAPS_UNACCOUNTED = 4
   \<and> flag_value example_encoding_aidl SMAPS_UNACCOUNTED = 4
   \<and> mask_of example_encoding [SMAPS_UNACCOUNTED, SHARED_PSS] = 20
   \<and> mask_of example_encoding_aidl [SMAPS_UNACCOUNTED, SHARED_PSS] = 20"
proof -
  have a: "static_asserts example_encoding example_encoding_aidl"
    by (simp add: static_asserts_def example_encoding_def example_encoding_aidl_def)
  have m: "mask_of example_encoding [SMAPS_UNACCOUNTED, SHARED_PSS] = 20"
    by (simp add: mask_of_def example_encoding_def)
  from static_asserts_encodings_agree [OF a]
  have "type_value example_encoding_aidl GRAPHICS = type_value example_encoding GRAPHICS"
    and "flag_value example_encoding_aidl SMAPS_UNACCOUNTED
      = flag_value example_encoding SMAPS_UNACCOUNTED"
    and "mask_of example_encoding_aidl [SMAPS_UNACCOUNTED, SHARED_PSS]
      = mask_of example_encoding [SMAPS_UNACCOUNTED, SHARED_PSS]"
    by simp_all
  with a m show ?thesis
    by (simp add: example_encoding_def)
qed

end
